theory Spec2Isabelle
  imports Main "HOL-Library.Word"
begin

section \<open>Go strings and the library functions the plugin calls\<close>

text \<open>
  A Go string is a sequence of bytes; \<^typ>\<open>string\<close> (a list of 8-bit characters) models
  it. \<open>strings.TrimSpace\<close> and \<open>strings.Fields\<close> work on the white space of
  \<open>unicode.IsSpace\<close>: the six ASCII characters tab, line feed, vertical tab, form feed,
  carriage return and space, then U+0085, U+00A0, U+1680, U+2000 to U+200A, U+2028, U+2029,
  U+202F, U+205F and U+3000. In UTF-8 each of these starts with a byte that is never a
  continuation byte, so the decoder of Go is always at a rune boundary there, and
  white space is recognised by matching the encodings on the bytes.
\<close>

definition asciiSpace :: "char \<Rightarrow> bool" where
  "asciiSpace c \<longleftrightarrow>
     c = CHR 0x09 \<or> c = CHR 0x0A \<or> c = CHR 0x0B \<or> c = CHR 0x0C \<or> c = CHR 0x0D \<or> c = CHR 0x20"

definition latin1Space :: "char \<Rightarrow> char \<Rightarrow> bool" where
  "latin1Space a b \<longleftrightarrow> a = CHR 0xC2 \<and> (b = CHR 0x85 \<or> b = CHR 0xA0)"

definition wideSpace :: "char \<Rightarrow> char \<Rightarrow> char \<Rightarrow> bool" where
  "wideSpace a b c \<longleftrightarrow>
     (a = CHR 0xE1 \<and> b = CHR 0x9A \<and> c = CHR 0x80) \<or>
     (a = CHR 0xE2 \<and> b = CHR 0x80 \<and>
        (((0x80::nat) \<le> of_char c \<and> (of_char c :: nat) \<le> 0x8A) \<or>
         c = CHR 0xA8 \<or> c = CHR 0xA9 \<or> c = CHR 0xAF)) \<or>
     (a = CHR 0xE2 \<and> b = CHR 0x81 \<and> c = CHR 0x9F) \<or>
     (a = CHR 0xE3 \<and> b = CHR 0x80 \<and> c = CHR 0x80)"

text \<open>The number of bytes of the white space rune a string starts with, 0 when it starts
  with none.\<close>

fun spaceWidth :: "string \<Rightarrow> nat" where
  "spaceWidth [] = 0"
| "spaceWidth [a] = (if asciiSpace a then 1 else 0)"
| "spaceWidth [a, b] = (if asciiSpace a then 1 else if latin1Space a b then 2 else 0)"
| "spaceWidth (a # b # c # rest) =
     (if asciiSpace a then 1 else if latin1Space a b then 2
      else if wideSpace a b c then 3 else 0)"

text \<open>The same for the rune a string ends with (the argument is the reversed string).\<close>

fun spaceWidthRev :: "string \<Rightarrow> nat" where
  "spaceWidthRev [] = 0"
| "spaceWidthRev [c] = (if asciiSpace c then 1 else 0)"
| "spaceWidthRev [c, b] = (if asciiSpace c then 1 else if latin1Space b c then 2 else 0)"
| "spaceWidthRev (c # b # a # rest) =
     (if asciiSpace c then 1 else if latin1Space b c then 2
      else if wideSpace a b c then 3 else 0)"

function TrimLeftSpace :: "string \<Rightarrow> string" where
  "TrimLeftSpace s = (if spaceWidth s = 0 then s else TrimLeftSpace (drop (spaceWidth s) s))"
  by pat_completeness auto
termination
proof (relation "measure length")
  show "wf (measure (length :: string \<Rightarrow> nat))" by simp
next
  fix s :: string
  assume w: "spaceWidth s \<noteq> 0"
  then have "s \<noteq> []" by (cases s) simp_all
  with w show "(drop (spaceWidth s) s, s) \<in> measure length" by simp
qed

declare TrimLeftSpace.simps [simp del]

function TrimRightRev :: "string \<Rightarrow> string" where
  "TrimRightRev r = (if spaceWidthRev r = 0 then r else TrimRightRev (drop (spaceWidthRev r) r))"
  by pat_completeness auto
termination
proof (relation "measure length")
  show "wf (measure (length :: string \<Rightarrow> nat))" by simp
next
  fix r :: string
  assume w: "spaceWidthRev r \<noteq> 0"
  then have "r \<noteq> []" by (cases r) simp_all
  with w show "(drop (spaceWidthRev r) r, r) \<in> measure length" by simp
qed

declare TrimRightRev.simps [simp del]

definition TrimSpace :: "string \<Rightarrow> string" where
  "TrimSpace s = rev (TrimRightRev (rev (TrimLeftSpace s)))"

text \<open>
  \<open>strings.Fields\<close>: the maximal runs of bytes between white space, in order. \<open>cur\<close> is
  the field being read. Off white space the scan moves on by one byte: no white space
  encoding starts at a continuation byte, so this finds the same fields as moving on by
  one rune.
\<close>

function FieldsFrom :: "string \<Rightarrow> string \<Rightarrow> string list" where
  "FieldsFrom cur [] = (if cur = [] then [] else [cur])"
| "FieldsFrom cur (c # cs) =
     (if spaceWidth (c # cs) = 0 then FieldsFrom (cur @ [c]) cs
      else (if cur = [] then [] else [cur]) @ FieldsFrom [] (drop (spaceWidth (c # cs)) (c # cs)))"
  by pat_completeness auto
termination
  by (relation "measure (\<lambda>(cur, s). length s)") auto

declare FieldsFrom.simps [simp del]

definition Fields :: "string \<Rightarrow> string list" where
  "Fields s = FieldsFrom [] s"

text \<open>\<open>strings.Join\<close>.\<close>

fun Join :: "string list \<Rightarrow> string \<Rightarrow> string" where
  "Join [] sep = []"
| "Join [e] sep = e"
| "Join (e # f # es) sep = e @ sep @ Join (f # es) sep"

text \<open>The verbs \<open>%d\<close> and \<open>%+d\<close> of \<open>fmt.Sprintf\<close> on an integer.\<close>

function showDigits :: "int \<Rightarrow> string" where
  "showDigits n = (if n < 10 then [''0123456789'' ! nat n]
                   else showDigits (n div 10) @ [''0123456789'' ! nat (n mod 10)])"
  by pat_completeness auto
termination
  by (relation "measure nat") auto

declare showDigits.simps [simp del]

definition fmtD :: "int \<Rightarrow> string" where
  "fmtD i = (if i < 0 then CHR ''-'' # showDigits (- i) else showDigits i)"

definition fmtPlusD :: "int \<Rightarrow> string" where
  "fmtPlusD i = (if i < 0 then CHR ''-'' # showDigits (- i) else CHR ''+'' # showDigits i)"

section \<open>The data of plugin.go\<close>

text \<open>
  The target of the build is amd64 (the Makefile), where the \<open>int\<close> of Go has 64 bits and
  its addition wraps around.
\<close>

type_synonym goint = "64 word"

text \<open>
  Modelled from the spec: dice.go, which declares the type of the value \<open>rollDice\<close>
  returns, is not part of the sources. plugin.go reads three fields of it: \<open>rollType\<close>,
  compared with the constant \<open>numeric\<close>; \<open>results\<close>, whose entries are added to the
  \<open>int\<close> \<open>sum\<close>; and \<open>sumModifier\<close>, added to \<open>sum\<close> as well. The spec names the two
  kinds of result Numeric and Modifier.
\<close>

datatype rollType = numeric | modifier

record diceRolls =
  rollType :: rollType
  results :: "goint list"
  sumModifier :: goint

text \<open>
  Modelled from the spec: the error value of \<open>rollDice\<close> is built in dice.go. The spec
  calls it InvalidRequest and says that it names the offending token; the wording of its
  text is not known, so \<open>Error\<close> puts the token between fixed words.
\<close>

datatype error = InvalidRequest string

fun Error :: "error \<Rightarrow> string" where
  "Error (InvalidRequest token) = ''Invalid roll request: '' @ token @ ''.''"

text \<open>The parts of the host's \<open>model\<close> package the plugin uses.\<close>

record User =
  Nickname :: string
  Username :: string

record Post =
  UserId :: string
  ChannelId :: string
  RootId :: string
  Message :: string

record AppError =
  Where :: string
  Id :: string
  DetailedError :: string
  StatusCode :: int

record Plugin =
  diceBotID :: string

definition appError :: "string \<Rightarrow> error option \<Rightarrow> AppError" where
  "appError message err =
     (let errorMessage = (case err of None \<Rightarrow> [] | Some e \<Rightarrow> Error e)
      in \<lparr>Where = ''Dice Roller Plugin'', Id = message, DetailedError = errorMessage,
          StatusCode = 400\<rparr>)"

section \<open>generateDicePost\<close>

fun filterEmptyString :: "string list \<Rightarrow> string list" where
  "filterEmptyString [] = []"
| "filterEmptyString (val # arr) =
     (if val \<noteq> [] then val # filterEmptyString arr else filterEmptyString arr)"

text \<open>The variables the loop over the roll requests updates.\<close>

record loopState =
  sum_total :: goint
  singleResultCount :: int
  numericDiceCount :: int
  formattedRollDetails :: "string list"

text \<open>The inner loop over the results of one request: it extends the detail string and
  adds each roll to the sum.\<close>

fun rollsLoop :: "goint list \<Rightarrow> string \<Rightarrow> goint \<Rightarrow> string \<times> goint" where
  "rollsLoop [] rollDetails s = (rollDetails, s)"
| "rollsLoop (roll # rolls) rollDetails s =
     rollsLoop rolls (rollDetails @ fmtD (sint roll) @ '' '') (s + roll)"

text \<open>
  The loop over the roll requests, from index \<open>i\<close> on. \<open>rollDice\<close> draws from the random
  source shared by the whole process; the source is the state \<open>g\<close>, which every call
  takes and returns. The function \<open>rollDice\<close> itself is a parameter. The slice
  \<open>formattedRollDetails\<close> has one slot for each request, so the index is always in range.
\<close>

fun rollLoop ::
  "(string \<Rightarrow> 'g \<Rightarrow> (error + diceRolls) \<times> 'g) \<Rightarrow> nat \<Rightarrow> string list \<Rightarrow> loopState \<Rightarrow> 'g
     \<Rightarrow> (AppError + loopState) \<times> 'g" where
  "rollLoop rollDice i [] st g = (Inr st, g)"
| "rollLoop rollDice i (rollRequest # rest) st g =
     (if rollRequest = ''sum'' then rollLoop rollDice (Suc i) rest st g
      else case rollDice rollRequest g of
        (Inl err, g') \<Rightarrow>
          (Inl (appError (Error err @ '' See `/roll help` for examples.'') (Some err)), g')
      | (Inr result, g') \<Rightarrow>
          if rollType result = numeric then
            (case rollsLoop (results result) (rollRequest @ '': '') (sum_total st) of
               (rollDetails, s) \<Rightarrow>
                 rollLoop rollDice (Suc i) rest
                   (st\<lparr>numericDiceCount := numericDiceCount st + 1,
                       singleResultCount := singleResultCount st + int (length (results result)),
                       sum_total := s,
                       formattedRollDetails :=
                         (formattedRollDetails st)[i := TrimSpace rollDetails]\<rparr>) g')
          else
            rollLoop rollDice (Suc i) rest
              (st\<lparr>formattedRollDetails :=
                     (formattedRollDetails st)[i := fmtPlusD (sint (sumModifier result))],
                  sum_total := sum_total st + sumModifier result\<rparr>) g')"

definition initState :: "string list \<Rightarrow> loopState" where
  "initState rollRequests =
     \<lparr>sum_total = 0, singleResultCount = 0, numericDiceCount = 0,
      formattedRollDetails = replicate (length rollRequests) []\<rparr>"

text \<open>The text of the post, from the head line and the final state of the loop.\<close>

definition postText :: "string \<Rightarrow> loopState \<Rightarrow> string" where
  "postText text st =
     (let text = text @ ''**'' @ fmtD (sint (sum_total st)) @ ''**''
      in if singleResultCount st > 1
         then text @ ''\<newline>- '' @ Join (filterEmptyString (formattedRollDetails st)) ''\<newline>- ''
         else text)"

definition noArgumentsMessage :: string where
  "noArgumentsMessage =
     ''No roll request arguments found (such as '' @ [CHR 0x27] @ ''20'' @ [CHR 0x27]
       @ '', '' @ [CHR 0x27] @ ''4d6'' @ [CHR 0x27] @ '', etc.).''"

text \<open>The query the function works on: an all-blank query becomes \<open>100\<close>.\<close>

definition effectiveQuery :: "string \<Rightarrow> string" where
  "effectiveQuery query = (if TrimSpace query = [] then ''100'' else query)"

definition generateDicePost ::
  "(string \<Rightarrow> 'g \<Rightarrow> (error + diceRolls) \<times> 'g) \<Rightarrow> (string \<Rightarrow> AppError + User) \<Rightarrow> Plugin
     \<Rightarrow> string \<Rightarrow> string \<Rightarrow> string \<Rightarrow> string \<Rightarrow> 'g \<Rightarrow> (AppError + Post) \<times> 'g" where
  "generateDicePost rollDice GetUser p query userID channelID rootID g =
     (case GetUser userID of
        Inl userErr \<Rightarrow> (Inl userErr, g)
      | Inr user \<Rightarrow>
          let displayName = (if Nickname user = [] then Username user else Nickname user);
              query = effectiveQuery query;
              text = ''**'' @ displayName @ ''** rolls *'' @ query @ ''* = '';
              rollRequests = Fields query
          in if length rollRequests = 0 \<or> query = ''sum''
             then (Inl (appError noArgumentsMessage None), g)
             else (case rollLoop rollDice 0 rollRequests (initState rollRequests) g of
                     (Inl e, g') \<Rightarrow> (Inl e, g')
                   | (Inr st, g') \<Rightarrow>
                       (Inr \<lparr>UserId = diceBotID p, ChannelId = channelID, RootId = rootID,
                             Message = postText text st\<rparr>, g')))"

section \<open>The ordered sequence of results\<close>

text \<open>
  Following the spec (a second definition, to be compared with the loop of the code): the
  ordered sequence of the results of a query, one entry for each token that is not the
  keyword \<open>sum\<close>, each with its token, in the order of the tokens. It fails with the error
  of the first token \<open>rollDice\<close> rejects.
\<close>

fun evalResults ::
  "(string \<Rightarrow> 'g \<Rightarrow> (error + diceRolls) \<times> 'g) \<Rightarrow> string list \<Rightarrow> 'g
     \<Rightarrow> (error + (string \<times> diceRolls) list) \<times> 'g" where
  "evalResults rollDice [] g = (Inr [], g)"
| "evalResults rollDice (t # ts) g =
     (if t = ''sum'' then evalResults rollDice ts g
      else case rollDice t g of
        (Inl err, g') \<Rightarrow> (Inl err, g')
      | (Inr result, g') \<Rightarrow>
          (case evalResults rollDice ts g' of
             (Inl err, g'') \<Rightarrow> (Inl err, g'')
           | (Inr rs, g'') \<Rightarrow> (Inr ((t, result) # rs), g'')))"

text \<open>What one result adds to the total, as an unbounded integer: every entry of the rolls
  of a Numeric result, the modifier value of a Modifier result.\<close>

definition resultValue :: "diceRolls \<Rightarrow> int" where
  "resultValue r =
     (if rollType r = numeric then sum_list (map sint (results r)) else sint (sumModifier r))"

definition exactTotal :: "(string \<times> diceRolls) list \<Rightarrow> int" where
  "exactTotal rs = sum_list (map (\<lambda>(t, r). resultValue r) rs)"

text \<open>The number of individual dice rolled: the entries of the rolls of the Numeric
  results.\<close>

definition diceRolled :: "(string \<times> diceRolls) list \<Rightarrow> nat" where
  "diceRolled rs =
     sum_list (map (\<lambda>(t, r). if rollType r = numeric then length (results r) else 0) rs)"

text \<open>The breakdown line of one result: the token and its rolls for a Numeric result, the
  signed value for a Modifier result.\<close>

definition detailLine :: "string \<times> diceRolls \<Rightarrow> string" where
  "detailLine tr =
     (case tr of (t, r) \<Rightarrow>
        if rollType r = numeric
        then TrimSpace (t @ '': '' @ concat (map (\<lambda>roll. fmtD (sint roll) @ '' '') (results r)))
        else fmtPlusD (sint (sumModifier r)))"

section \<open>The roll engine\<close>

text \<open>
  Modelled from the spec: \<open>rollDice\<close> is defined in dice.go, which is not part of the
  sources. What follows is the roll engine as sections 3 and 4 of the spec describe it, on
  unbounded integers as the spec has them.

  The random source is the sequence of raw values the generator will produce; a draw
  takes the first and leaves the rest. The spec leaves a die with no sides open and names
  an always-zero roll as the reference behaviour: that is what \<open>rollDie\<close> does.
\<close>

type_synonym randSource = "nat \<Rightarrow> nat"

datatype kind = Numeric | Modifier

record RollResult =
  kind :: kind
  rolls :: "int list"
  modifierValue :: int

text \<open>A parsed token: a dice term with its count, its sides and its per-die modifier
  (0 when there is none), or a standalone signed integer.\<close>

datatype rollRequest = DiceRequest nat nat int | ModifierRequest int

definition isDigit :: "char \<Rightarrow> bool" where
  "isDigit c \<longleftrightarrow> (48::nat) \<le> of_char c \<and> (of_char c :: nat) \<le> 57"

definition isSign :: "char \<Rightarrow> bool" where
  "isSign c \<longleftrightarrow> c = CHR ''+'' \<or> c = CHR ''-''"

definition isSeparator :: "char \<Rightarrow> bool" where
  "isSeparator c \<longleftrightarrow> c = CHR ''d'' \<or> c = CHR ''D''"

definition allDigits :: "string \<Rightarrow> bool" where
  "allDigits ds \<longleftrightarrow> ds \<noteq> [] \<and> list_all isDigit ds"

definition digitsValue :: "string \<Rightarrow> int" where
  "digitsValue ds = foldl (\<lambda>n c. 10 * n + (of_char c - 48)) 0 ds"

definition signedValue :: "char \<Rightarrow> string \<Rightarrow> int" where
  "signedValue c ds = (if c = CHR ''-'' then - digitsValue ds else digitsValue ds)"

text \<open>The grammars of section 4.1, tried in the order of section 9: the standalone
  modifier, the dice term with a modifier, the dice term, the plain number.\<close>

definition parseRequest :: "string \<Rightarrow> rollRequest option" where
  "parseRequest token =
     (case token of
        [] \<Rightarrow> None
      | c # cs \<Rightarrow>
          if isSign c
          then (if allDigits cs then Some (ModifierRequest (signedValue c cs)) else None)
          else
            (let cnt = takeWhile isDigit token;
                 count = (if cnt = [] then 1 else nat (digitsValue cnt))
             in case dropWhile isDigit token of
                  [] \<Rightarrow> Some (DiceRequest 1 (nat (digitsValue cnt)) 0)
                | d # afterD \<Rightarrow>
                    if isSeparator d
                    then
                      (let sd = takeWhile isDigit afterD;
                           sides = nat (digitsValue sd)
                       in if sd = [] then None
                          else case dropWhile isDigit afterD of
                                 [] \<Rightarrow> Some (DiceRequest count sides 0)
                               | s # ms \<Rightarrow>
                                   if isSign s \<and> allDigits ms
                                   then Some (DiceRequest count sides (signedValue s ms))
                                   else None)
                    else None))"

definition rollDie :: "nat \<Rightarrow> randSource \<Rightarrow> int \<times> randSource" where
  "rollDie sides g =
     (if sides = 0 then (0, g) else (1 + int (g 0 mod sides), \<lambda>i. g (Suc i)))"

text \<open>\<open>count\<close> dice in the order they are rolled, the modifier added to each.\<close>

fun rollAll :: "nat \<Rightarrow> nat \<Rightarrow> int \<Rightarrow> randSource \<Rightarrow> int list \<times> randSource" where
  "rollAll 0 sides m g = ([], g)"
| "rollAll (Suc n) sides m g =
     (case rollDie sides g of
        (v, g') \<Rightarrow> (case rollAll n sides m g' of (vs, g'') \<Rightarrow> ((v + m) # vs, g'')))"

fun evalRequest :: "rollRequest \<Rightarrow> randSource \<Rightarrow> RollResult \<times> randSource" where
  "evalRequest (DiceRequest count sides m) g =
     (case rollAll count sides m g of
        (vs, g') \<Rightarrow> (\<lparr>kind = Numeric, rolls = vs, modifierValue = m\<rparr>, g'))"
| "evalRequest (ModifierRequest m) g = (\<lparr>kind = Modifier, rolls = [], modifierValue = m\<rparr>, g)"

definition rollToken :: "string \<Rightarrow> randSource \<Rightarrow> (error + RollResult) \<times> randSource" where
  "rollToken token g =
     (case parseRequest token of
        None \<Rightarrow> (Inl (InvalidRequest token), g)
      | Some req \<Rightarrow> (case evalRequest req g of (res, g') \<Rightarrow> (Inr res, g')))"

text \<open>
  Modelled from the spec: \<open>rollDice\<close> as plugin.go calls it is the roll engine with its
  result stored in the fields plugin.go reads, whose integers are the \<open>int\<close> of Go.
\<close>

definition toDiceRolls :: "RollResult \<Rightarrow> diceRolls" where
  "toDiceRolls res =
     \<lparr>rollType = (case kind res of Numeric \<Rightarrow> numeric | Modifier \<Rightarrow> modifier),
      results = map word_of_int (rolls res),
      sumModifier = word_of_int (modifierValue res)\<rparr>"

definition rollDice :: "string \<Rightarrow> randSource \<Rightarrow> (error + diceRolls) \<times> randSource" where
  "rollDice token g =
     (case rollToken token g of
        (Inl err, g') \<Rightarrow> (Inl err, g')
      | (Inr res, g') \<Rightarrow> (Inr (toDiceRolls res), g'))"

section \<open>Auxiliary definitions\<close>

text \<open>What one result adds to the sum of the loop, in the arithmetic of the machine.\<close>

definition wordValue :: "diceRolls \<Rightarrow> goint" where
  "wordValue r = (if rollType r = numeric then sum_list (results r) else sumModifier r)"

text \<open>The slots of \<open>formattedRollDetails\<close> after the loop: one for each token, empty for
  the keyword \<open>sum\<close>, the breakdown line of the result otherwise.\<close>

fun slots :: "string list \<Rightarrow> (string \<times> diceRolls) list \<Rightarrow> string list" where
  "slots [] rs = []"
| "slots (t # ts) rs =
     (if t = ''sum'' then [] # slots ts rs
      else case rs of [] \<Rightarrow> [] # slots ts [] | r # rs' \<Rightarrow> detailLine r # slots ts rs')"

text \<open>The head line of the post.\<close>

definition headLine :: "User \<Rightarrow> string \<Rightarrow> string" where
  "headLine user query =
     ''**'' @ (if Nickname user = [] then Username user else Nickname user)
       @ ''** rolls *'' @ query @ ''* = ''"

text \<open>A user, a plugin and a random source to run the functions on.\<close>

definition exampleUser :: User where
  "exampleUser = \<lparr>Nickname = [], Username = ''bob''\<rparr>"

definition exampleGetUser :: "string \<Rightarrow> AppError + User" where
  "exampleGetUser userID = Inr exampleUser"

definition examplePlugin :: Plugin where
  "examplePlugin = \<lparr>diceBotID = ''dicebot''\<rparr>"

definition exampleSource :: randSource where
  "exampleSource = (\<lambda>i. 2 * i + 3)"

section \<open>The loop computes the ordered sequence of results\<close>

lemma rollsLoop_eq:
  "rollsLoop rs d s = (d @ concat (map (\<lambda>roll. fmtD (sint roll) @ '' '') rs), s + sum_list rs)"
  by (induction rs arbitrary: d s) (simp_all add: add.assoc)

lemma length_slots [simp]: "length (slots ts rs) = length ts"
  by (induction ts arbitrary: rs) (auto split: list.splits)

lemma rollLoop_error:
  "evalResults rd ts g = (Inl err, g') \<Longrightarrow>
   rollLoop rd i ts st g =
     (Inl (appError (Error err @ '' See `/roll help` for examples.'') (Some err)), g')"
proof (induction ts arbitrary: i st g)
  case Nil
  then show ?case by simp
next
  case (Cons t ts)
  show ?case
  proof (cases "t = ''sum''")
    case True
    with Cons show ?thesis by simp
  next
    case False
    obtain x g1 where rd: "rd t g = (x, g1)" by (cases "rd t g")
    show ?thesis
    proof (cases x)
      case (Inl e)
      with Cons.prems False rd show ?thesis by simp
    next
      case (Inr result)
      with Cons.prems False rd have "evalResults rd ts g1 = (Inl err, g')"
        by (auto split: prod.splits sum.splits)
      from Cons.IH [OF this] False rd Inr show ?thesis
        by (simp add: rollsLoop_eq)
    qed
  qed
qed

lemma rollLoop_success:
  "evalResults rd ts g = (Inr rs, g') \<Longrightarrow>
   formattedRollDetails st = pre @ replicate (length ts) [] @ post \<Longrightarrow>
   rollLoop rd (length pre) ts st g =
     (Inr \<lparr>sum_total = sum_total st + sum_list (map (\<lambda>(t, r). wordValue r) rs),
           singleResultCount = singleResultCount st + int (diceRolled rs),
           numericDiceCount = numericDiceCount st
             + int (length (filter (\<lambda>(t, r). rollType r = numeric) rs)),
           formattedRollDetails = pre @ slots ts rs @ post\<rparr>, g')"
proof (induction ts arbitrary: st g pre rs)
  case Nil
  then show ?case by (simp add: diceRolled_def)
next
  case (Cons t ts)
  show ?case
  proof (cases "t = ''sum''")
    case True
    from Cons.prems have d: "formattedRollDetails st = (pre @ [[]]) @ replicate (length ts) [] @ post"
      by simp
    from Cons.prems True have e: "evalResults rd ts g = (Inr rs, g')" by simp
    from Cons.IH [OF e d] True show ?thesis by simp
  next
    case False
    obtain x g1 where rd: "rd t g = (x, g1)" by (cases "rd t g")
    from Cons.prems False rd obtain result rs' where
      x: "x = Inr result" and e: "evalResults rd ts g1 = (Inr rs', g')" and rs: "rs = (t, result) # rs'"
      by (auto split: prod.splits sum.splits)
    show ?thesis
    proof (cases "rollType result = numeric")
      case True
      let ?line = "detailLine (t, result)"
      let ?st = "st\<lparr>numericDiceCount := numericDiceCount st + 1,
                       singleResultCount := singleResultCount st + int (length (results result)),
                       sum_total := sum_total st + sum_list (results result),
                       formattedRollDetails := (formattedRollDetails st)[length pre := ?line]\<rparr>"
      have d: "formattedRollDetails ?st = (pre @ [?line]) @ replicate (length ts) [] @ post"
        using Cons.prems(2) by simp
      from Cons.IH [OF e d] True False rd x rs show ?thesis
        by (simp add: rollsLoop_eq detailLine_def wordValue_def diceRolled_def add.assoc)
    next
      case nn: False
      let ?line = "detailLine (t, result)"
      let ?st = "st\<lparr>formattedRollDetails := (formattedRollDetails st)[length pre := ?line],
                  sum_total := sum_total st + sumModifier result\<rparr>"
      have d: "formattedRollDetails ?st = (pre @ [?line]) @ replicate (length ts) [] @ post"
        using Cons.prems(2) by simp
      from Cons.IH [OF e d] nn False rd x rs show ?thesis
        by (simp add: detailLine_def wordValue_def diceRolled_def add.assoc)
    qed
  qed
qed

section \<open>Breakdown lines are never empty\<close>

lemma asciiSpace_colon: "\<not> asciiSpace (CHR '':'')"
  by (simp add: asciiSpace_def)

lemma latin1Space_colon: "\<not> latin1Space (CHR '':'') b" "\<not> latin1Space a (CHR '':'')"
  by (simp_all add: latin1Space_def)

lemma wideSpace_colon:
  "\<not> wideSpace (CHR '':'') b c" "\<not> wideSpace a (CHR '':'') c" "\<not> wideSpace a b (CHR '':'')"
  by (simp_all add: wideSpace_def)

lemmas space_colon = asciiSpace_colon latin1Space_colon wideSpace_colon

lemma colon_not_in_space: "CHR '':'' \<notin> set (take (spaceWidth s) s)"
proof (cases s rule: spaceWidth.cases)
  case 1
  then show ?thesis by simp
next
  case (2 a)
  then show ?thesis using space_colon by (cases "a = CHR '':''") simp_all
next
  case (3 a b)
  then show ?thesis using space_colon
    by (cases "a = CHR '':''"; cases "b = CHR '':''") simp_all
next
  case (4 a b c rest)
  then show ?thesis using space_colon
    by (cases "a = CHR '':''"; cases "b = CHR '':''"; cases "c = CHR '':''") simp_all
qed

lemma colon_not_in_spaceRev: "CHR '':'' \<notin> set (take (spaceWidthRev s) s)"
proof (cases s rule: spaceWidthRev.cases)
  case 1
  then show ?thesis by simp
next
  case (2 a)
  then show ?thesis using space_colon by (cases "a = CHR '':''") simp_all
next
  case (3 a b)
  then show ?thesis using space_colon
    by (cases "a = CHR '':''"; cases "b = CHR '':''") simp_all
next
  case (4 a b c rest)
  then show ?thesis using space_colon
    by (cases "a = CHR '':''"; cases "b = CHR '':''"; cases "c = CHR '':''") simp_all
qed

lemma colon_drop_space: "CHR '':'' \<in> set s \<Longrightarrow> CHR '':'' \<in> set (drop (spaceWidth s) s)"
proof -
  assume a: "CHR '':'' \<in> set s"
  have "set s = set (take (spaceWidth s) s) \<union> set (drop (spaceWidth s) s)"
    by (metis append_take_drop_id set_append)
  with a colon_not_in_space [of s] show ?thesis by blast
qed

lemma colon_drop_spaceRev: "CHR '':'' \<in> set s \<Longrightarrow> CHR '':'' \<in> set (drop (spaceWidthRev s) s)"
proof -
  assume a: "CHR '':'' \<in> set s"
  have "set s = set (take (spaceWidthRev s) s) \<union> set (drop (spaceWidthRev s) s)"
    by (metis append_take_drop_id set_append)
  with a colon_not_in_spaceRev [of s] show ?thesis by blast
qed

lemma colon_TrimLeftSpace: "CHR '':'' \<in> set s \<Longrightarrow> CHR '':'' \<in> set (TrimLeftSpace s)"
proof (induction s rule: TrimLeftSpace.induct)
  case (1 s)
  show ?case
  proof (cases "spaceWidth s = 0")
    case True
    with "1.prems" show ?thesis by (subst TrimLeftSpace.simps) simp
  next
    case False
    from "1.IH" [OF False colon_drop_space [OF "1.prems"]] False show ?thesis
      by (subst TrimLeftSpace.simps) simp
  qed
qed

lemma colon_TrimRightRev: "CHR '':'' \<in> set s \<Longrightarrow> CHR '':'' \<in> set (TrimRightRev s)"
proof (induction s rule: TrimRightRev.induct)
  case (1 s)
  show ?case
  proof (cases "spaceWidthRev s = 0")
    case True
    with "1.prems" show ?thesis by (subst TrimRightRev.simps) simp
  next
    case False
    from "1.IH" [OF False colon_drop_spaceRev [OF "1.prems"]] False show ?thesis
      by (subst TrimRightRev.simps) simp
  qed
qed

lemma TrimSpace_colon: "CHR '':'' \<in> set s \<Longrightarrow> TrimSpace s \<noteq> []"
proof -
  assume "CHR '':'' \<in> set s"
  then have "CHR '':'' \<in> set (rev (TrimLeftSpace s))" by (simp add: colon_TrimLeftSpace)
  then have "CHR '':'' \<in> set (TrimRightRev (rev (TrimLeftSpace s)))" by (rule colon_TrimRightRev)
  then show ?thesis unfolding TrimSpace_def by auto
qed

lemma detailLine_nonempty: "detailLine tr \<noteq> []"
  by (cases tr) (simp add: detailLine_def TrimSpace_colon fmtPlusD_def)

lemma filterEmptyString_filter: "filterEmptyString xs = filter (\<lambda>val. val \<noteq> []) xs"
  by (induction xs) simp_all

lemma filterEmptyString_slots:
  "evalResults rd ts g = (Inr rs, g') \<Longrightarrow> filterEmptyString (slots ts rs) = map detailLine rs"
proof (induction ts arbitrary: g rs)
  case Nil
  then show ?case by simp
next
  case (Cons t ts)
  show ?case
  proof (cases "t = ''sum''")
    case True
    with Cons show ?thesis by simp
  next
    case False
    obtain x g1 where rd: "rd t g = (x, g1)" by (cases "rd t g")
    from Cons.prems False rd obtain result rs' where
      e: "evalResults rd ts g1 = (Inr rs', g')" and rs: "rs = (t, result) # rs'"
      by (auto split: prod.splits sum.splits)
    from Cons.IH [OF e] False rs show ?thesis by (simp add: detailLine_nonempty)
  qed
qed

lemma word_of_int_sum_sint: "sum_list (ws :: goint list) = word_of_int (sum_list (map sint ws))"
  by (induction ws) simp_all

lemma wordValue_exact: "wordValue r = word_of_int (resultValue r)"
  by (simp add: wordValue_def resultValue_def word_of_int_sum_sint)

lemma wordTotal_exact:
  "sum_list (map (\<lambda>(t, r). wordValue r) rs) = (word_of_int (exactTotal rs) :: goint)"
  by (induction rs) (auto simp: exactTotal_def wordValue_exact)

lemma sint_exact:
  "- (2 ^ 63) \<le> i \<Longrightarrow> i < 2 ^ 63 \<Longrightarrow> sint (word_of_int i :: goint) = i"
  by (simp add: sint_sbintrunc' signed_take_bit_int_eq_self)


section \<open>The loop from its initial state\<close>

lemma rollLoop_init:
  assumes "evalResults rd ts g = (Inr rs, g')"
  shows "rollLoop rd 0 ts (initState ts) g =
     (Inr \<lparr>sum_total = word_of_int (exactTotal rs),
           singleResultCount = int (diceRolled rs),
           numericDiceCount = int (length (filter (\<lambda>(t, r). rollType r = numeric) rs)),
           formattedRollDetails = slots ts rs\<rparr>, g')"
proof -
  have d: "formattedRollDetails (initState ts) = [] @ replicate (length ts) [] @ []"
    by (simp add: initState_def)
  from rollLoop_success [OF assms d] show ?thesis
    by (simp add: initState_def wordTotal_exact)
qed

lemma rollLoop_Inr_results:
  assumes "rollLoop rd 0 ts (initState ts) g = (Inr st, g')"
  shows "\<exists>rs. evalResults rd ts g = (Inr rs, g')"
proof -
  obtain x g1 where e: "evalResults rd ts g = (x, g1)" by (cases "evalResults rd ts g")
  show ?thesis
  proof (cases x)
    case (Inl err)
    with e rollLoop_error [of rd ts g err g1 0 "initState ts"] assms show ?thesis by simp
  next
    case (Inr rs)
    with e rollLoop_init [of rd ts g rs g1] assms show ?thesis by simp
  qed
qed

lemma evalResults_tokens:
  "evalResults rd ts g = (Inr rs, g') \<Longrightarrow> map fst rs = filter (\<lambda>t. t \<noteq> ''sum'') ts"
proof (induction ts arbitrary: g rs)
  case Nil
  then show ?case by simp
next
  case (Cons t ts)
  then show ?case by (auto split: if_splits prod.splits sum.splits)
qed

lemma evalResults_filter:
  "evalResults rd (filter (\<lambda>t. t \<noteq> ''sum'') ts) g = evalResults rd ts g"
proof (induction ts arbitrary: g)
  case Nil
  then show ?case by simp
next
  case (Cons t ts)
  then show ?case by (auto split: prod.splits sum.splits)
qed

lemma slots_no_sum:
  "evalResults rd ts g = (Inr rs, g') \<Longrightarrow> ''sum'' \<notin> set ts \<Longrightarrow> slots ts rs = map detailLine rs"
proof (induction ts arbitrary: g rs)
  case Nil
  then show ?case by simp
next
  case (Cons t ts)
  then show ?case by (auto split: prod.splits sum.splits)
qed

section \<open>The outcomes of generateDicePost\<close>

lemma generateDicePost_Inr:
  assumes a: "generateDicePost rd GetUser p query userID channelID rootID g = (Inr post, g')"
  shows "\<exists>user st. GetUser userID = Inr user \<and>
           rollLoop rd 0 (Fields (effectiveQuery query))
             (initState (Fields (effectiveQuery query))) g = (Inr st, g') \<and>
           Message post = postText (headLine user (effectiveQuery query)) st"
proof (cases "GetUser userID")
  case (Inl userErr)
  with a show ?thesis by (simp add: generateDicePost_def)
next
  case (Inr user)
  let ?q = "effectiveQuery query"
  let ?ts = "Fields ?q"
  obtain x g1 where l: "rollLoop rd 0 ?ts (initState ?ts) g = (x, g1)"
    by (cases "rollLoop rd 0 ?ts (initState ?ts) g")
  show ?thesis
  proof (cases "length ?ts = 0 \<or> ?q = ''sum''")
    case True
    with a Inr show ?thesis by (simp add: generateDicePost_def Let_def)
  next
    case False
    show ?thesis
    proof (cases x)
      case (Inl e)
      with a Inr False l show ?thesis by (simp add: generateDicePost_def Let_def)
    next
      case r: (Inr st)
      from a Inr False l r have "g1 = g'" and
        "post = \<lparr>UserId = diceBotID p, ChannelId = channelID, RootId = rootID,
                 Message = postText (headLine user ?q) st\<rparr>"
        by (simp_all add: generateDicePost_def Let_def headLine_def)
      with Inr l r show ?thesis by simp
    qed
  qed
qed

lemma evalResults_first_error:
  "evalResults rd pre g = (Inr rs, g1) \<Longrightarrow> t \<noteq> ''sum'' \<Longrightarrow> rd t g1 = (Inl err, g2) \<Longrightarrow>
   evalResults rd (pre @ t # post) g = (Inl err, g2)"
proof (induction pre arbitrary: g rs)
  case Nil
  then show ?case by simp
next
  case (Cons a pre)
  show ?case
  proof (cases "a = ''sum''")
    case True
    with Cons show ?thesis by simp
  next
    case False
    obtain x g0 where rd: "rd a g = (x, g0)" by (cases "rd a g")
    from Cons.prems(1) False rd obtain result rs' where
      x: "x = Inr result" and e: "evalResults rd pre g0 = (Inr rs', g1)"
      by (auto split: prod.splits sum.splits)
    from Cons.IH [OF e Cons.prems(2) Cons.prems(3)] False rd x show ?thesis by simp
  qed
qed

lemma rollDice_invalid:
  "parseRequest t = None \<Longrightarrow> rollDice t g = (Inl (InvalidRequest t), g)"
  by (simp add: rollDice_def rollToken_def)

lemma Fields_sum: "Fields ''sum'' = [''sum'']"
  by code_simp

lemma generateDicePost_error:
  assumes u: "GetUser userID = Inr user"
    and f: "Fields (effectiveQuery query) \<noteq> []"
    and q: "effectiveQuery query \<noteq> ''sum''"
    and e: "evalResults rd (Fields (effectiveQuery query)) g = (Inl err, g')"
  shows "generateDicePost rd GetUser p query userID channelID rootID g =
     (Inl (appError (Error err @ '' See `/roll help` for examples.'') (Some err)), g')"
proof -
  let ?ts = "Fields (effectiveQuery query)"
  from rollLoop_error [OF e] have
    "rollLoop rd 0 ?ts (initState ?ts) g =
       (Inl (appError (Error err @ '' See `/roll help` for examples.'') (Some err)), g')" .
  with u f q show ?thesis by (simp add: generateDicePost_def Let_def)
qed

section \<open>The claims\<close>

subsection \<open>The default query\<close>

lemma TrimSpace_100: "TrimSpace ''100'' = ''100''"
  by code_simp

lemma effectiveQuery_blank: "TrimSpace query = [] \<Longrightarrow> effectiveQuery query = effectiveQuery ''100''"
  by (simp add: effectiveQuery_def TrimSpace_100)

text \<open>
  Claim C4. A query that is empty once its white space is removed gives the same outcome as
  the query \<open>100\<close>: the same post or the same error, and the same random source afterwards,
  when both start from the same random source. This holds for any \<open>rollDice\<close>.
\<close>

theorem blank_query_is_100:
  "TrimSpace query = [] \<Longrightarrow>
   generateDicePost rd GetUser p query userID channelID rootID g =
   generateDicePost rd GetUser p ''100'' userID channelID rootID g"
  unfolding generateDicePost_def by (simp only: effectiveQuery_blank)

theorem blank_query_is_100_witness:
  "TrimSpace [CHR 0x20, CHR 0x09] = [] \<and>
   generateDicePost rollDice exampleGetUser examplePlugin [CHR 0x20, CHR 0x09] ''u'' ''c'' ''r''
     exampleSource =
   generateDicePost rollDice exampleGetUser examplePlugin ''100'' ''u'' ''c'' ''r'' exampleSource"
proof -
  have h: "TrimSpace [CHR 0x20, CHR 0x09] = []" by code_simp
  from h blank_query_is_100 [OF h, of rollDice exampleGetUser examplePlugin] show ?thesis
    by simp
qed

subsection \<open>Queries without roll requests\<close>

lemma Fields_sum_sum: "Fields ''sum sum'' = [''sum'', ''sum'']"
  by code_simp

lemma TrimSpace_sum_sum: "TrimSpace ''sum sum'' = ''sum sum''"
  by code_simp

text \<open>
  Claim C3. A query with no token left once the keyword \<open>sum\<close> is set aside should fail
  with the error for an empty request. The guard of the code compares the whole query with
  \<open>sum\<close>, so it misses a query made of several such keywords: on \<open>sum sum\<close> the loop
  skips both tokens, \<open>rollDice\<close> is never called, and a post with the total 0 is returned,
  whatever \<open>rollDice\<close> and the random source are.
\<close>

theorem sum_sum_not_rejected:
  "generateDicePost rd exampleGetUser examplePlugin ''sum sum'' userID channelID rootID g =
     (Inr \<lparr>UserId = ''dicebot'', ChannelId = channelID, RootId = rootID,
           Message = ''**bob** rolls *sum sum* = **0**''\<rparr>, g)"
  by (simp add: generateDicePost_def effectiveQuery_def TrimSpace_sum_sum Fields_sum_sum
      exampleGetUser_def exampleUser_def examplePlugin_def initState_def postText_def fmtD_def
      showDigits.simps)

subsection \<open>The total\<close>

text \<open>
  Claim C1, as amended. When the loop over the tokens of a query succeeds, its \<open>sum\<close> is
  the sum of every roll of the Numeric results and every modifier value of the Modifier
  results of the ordered result sequence, reduced to the 64 bits of the \<open>int\<close> of Go; it
  is that sum exactly whenever the sum lies in the range of a signed 64-bit integer. (The
  post shows \<open>sum\<close> between the asterisks, see \<open>postText\<close>.)
\<close>

theorem total_is_wrapped_sum:
  assumes "rollLoop rd 0 ts (initState ts) g = (Inr st, g')"
  shows "\<exists>rs. evalResults rd ts g = (Inr rs, g') \<and>
           sum_total st = word_of_int (exactTotal rs) \<and>
           (- (2 ^ 63) \<le> exactTotal rs \<and> exactTotal rs < 2 ^ 63 \<longrightarrow>
              sint (sum_total st) = exactTotal rs)"
proof -
  from rollLoop_Inr_results [OF assms] obtain rs where e: "evalResults rd ts g = (Inr rs, g')"
    by blast
  from rollLoop_init [OF e] assms have s: "sum_total st = word_of_int (exactTotal rs)"
    by auto
  with e show ?thesis by (auto simp: sint_exact)
qed

theorem total_is_wrapped_sum_witness:
  "fst (rollLoop rollDice 0 [''5D6'', ''+3''] (initState [''5D6'', ''+3'']) exampleSource) =
     Inr \<lparr>sum_total = 25, singleResultCount = 5, numericDiceCount = 1,
          formattedRollDetails = [''5D6: 4 6 2 4 6'', ''+3'']\<rparr> \<and>
   sint (25 :: goint) =
     exactTotal [(''5D6'', \<lparr>rollType = numeric, results = [4, 6, 2, 4, 6], sumModifier = 0\<rparr>),
                 (''+3'', \<lparr>rollType = modifier, results = [], sumModifier = 3\<rparr>)]"
proof -
  let ?ts = "[''5D6'', ''+3'']"
  let ?st = "\<lparr>sum_total = 25 :: goint, singleResultCount = 5, numericDiceCount = 1,
          formattedRollDetails = [''5D6: 4 6 2 4 6'', ''+3'']\<rparr>"
  let ?rs = "[(''5D6'', \<lparr>rollType = numeric, results = [4, 6, 2, 4, 6 :: goint], sumModifier = 0\<rparr>),
                 (''+3'', \<lparr>rollType = modifier, results = [], sumModifier = 3\<rparr>)]"
  have f: "fst (rollLoop rollDice 0 ?ts (initState ?ts) exampleSource) = Inr ?st"
    by code_simp
  then have h: "rollLoop rollDice 0 ?ts (initState ?ts) exampleSource =
      (Inr ?st, snd (rollLoop rollDice 0 ?ts (initState ?ts) exampleSource))"
    by (simp add: prod_eq_iff)
  have r: "fst (evalResults rollDice ?ts exampleSource) = Inr ?rs"
    by code_simp
  have x: "exactTotal ?rs = 25" by code_simp
  from total_is_wrapped_sum [OF h] r x have "sint (sum_total ?st) = exactTotal ?rs"
    by auto
  with f show ?thesis by simp
qed

text \<open>
  The claim as stated, with the exact integer sum, fails when the sum leaves that range:
  the two modifiers below add up to \<open>2^63\<close>, and the post shows \<open>-2^63\<close>.
\<close>

theorem total_overflow_counterexample:
  "fst (generateDicePost rollDice exampleGetUser examplePlugin ''+9223372036854775807 +1''
          ''u'' ''c'' ''r'' exampleSource) =
     Inr \<lparr>UserId = ''dicebot'', ChannelId = ''c'', RootId = ''r'',
          Message = ''**bob** rolls *+9223372036854775807 +1* = **-9223372036854775808**''\<rparr> \<and>
   fst (evalResults rollDice (Fields ''+9223372036854775807 +1'') exampleSource) =
     Inr [(''+9223372036854775807'',
            \<lparr>rollType = modifier, results = [], sumModifier = 9223372036854775807\<rparr>),
          (''+1'', \<lparr>rollType = modifier, results = [], sumModifier = 1\<rparr>)] \<and>
   exactTotal [(''+9223372036854775807'',
            \<lparr>rollType = modifier, results = [], sumModifier = 9223372036854775807\<rparr>),
          (''+1'', \<lparr>rollType = modifier, results = [], sumModifier = 1\<rparr>)] =
     9223372036854775808"
  by code_simp

subsection \<open>When the breakdown is shown\<close>

text \<open>
  Claim C5, as amended. The breakdown is appended to the total exactly when more than one
  individual die was rolled over the whole query, that is when the Numeric results hold
  more than one roll in all; otherwise the text ends with the total, however many tokens
  the query has.
\<close>

theorem breakdown_iff_more_than_one_die:
  assumes "rollLoop rd 0 ts (initState ts) g = (Inr st, g')"
  shows "\<exists>rs. evalResults rd ts g = (Inr rs, g') \<and>
           singleResultCount st = int (diceRolled rs) \<and>
           postText text st =
             text @ ''**'' @ fmtD (sint (sum_total st)) @ ''**'' @
               (if 1 < diceRolled rs then ''\<newline>- '' @ Join (map detailLine rs) ''\<newline>- '' else [])"
proof -
  from rollLoop_Inr_results [OF assms] obtain rs where e: "evalResults rd ts g = (Inr rs, g')"
    by blast
  from rollLoop_init [OF e] assms have
    c: "singleResultCount st = int (diceRolled rs)" and d: "formattedRollDetails st = slots ts rs"
    by auto
  from d filterEmptyString_slots [OF e] have
    f: "filterEmptyString (formattedRollDetails st) = map detailLine rs" by simp
  from c f have "postText text st =
             text @ ''**'' @ fmtD (sint (sum_total st)) @ ''**'' @
               (if 1 < diceRolled rs then ''\<newline>- '' @ Join (map detailLine rs) ''\<newline>- '' else [])"
    by (simp add: postText_def Let_def)
  with e c show ?thesis by blast
qed

theorem breakdown_iff_more_than_one_die_witness:
  "fst (rollLoop rollDice 0 [''5D6'', ''+3''] (initState [''5D6'', ''+3'']) exampleSource) =
     Inr \<lparr>sum_total = 25, singleResultCount = 5, numericDiceCount = 1,
          formattedRollDetails = [''5D6: 4 6 2 4 6'', ''+3'']\<rparr> \<and>
   postText ''total ''
     \<lparr>sum_total = 25, singleResultCount = 5, numericDiceCount = 1,
      formattedRollDetails = [''5D6: 4 6 2 4 6'', ''+3'']\<rparr> =
     ''total **25**\<newline>- 5D6: 4 6 2 4 6\<newline>- +3''"
proof -
  let ?ts = "[''5D6'', ''+3'']"
  let ?st = "\<lparr>sum_total = 25 :: goint, singleResultCount = 5, numericDiceCount = 1,
          formattedRollDetails = [''5D6: 4 6 2 4 6'', ''+3'']\<rparr>"
  let ?rs = "[(''5D6'', \<lparr>rollType = numeric, results = [4, 6, 2, 4, 6 :: goint], sumModifier = 0\<rparr>),
                 (''+3'', \<lparr>rollType = modifier, results = [], sumModifier = 3\<rparr>)]"
  have f: "fst (rollLoop rollDice 0 ?ts (initState ?ts) exampleSource) = Inr ?st"
    by code_simp
  then have h: "rollLoop rollDice 0 ?ts (initState ?ts) exampleSource =
      (Inr ?st, snd (rollLoop rollDice 0 ?ts (initState ?ts) exampleSource))"
    by (simp add: prod_eq_iff)
  have r: "fst (evalResults rollDice ?ts exampleSource) = Inr ?rs"
    by code_simp
  have v: "''total '' @ ''**'' @ fmtD (sint (sum_total ?st)) @ ''**'' @
               (if 1 < diceRolled ?rs then ''\<newline>- '' @ Join (map detailLine ?rs) ''\<newline>- '' else [])
           = ''total **25**\<newline>- 5D6: 4 6 2 4 6\<newline>- +3''"
    by code_simp
  from breakdown_iff_more_than_one_die [OF h, of "''total ''"] r v
  have "postText ''total '' ?st = ''total **25**\<newline>- 5D6: 4 6 2 4 6\<newline>- +3''"
    by auto
  with f show ?thesis by simp
qed

text \<open>
  The claim as stated also promises the breakdown for several tokens. A query of two
  tokens that rolls one die shows the total alone.
\<close>

theorem two_tokens_without_breakdown_counterexample:
  "Fields ''6 +3'' = [''6'', ''+3''] \<and>
   fst (generateDicePost rollDice exampleGetUser examplePlugin ''6 +3'' ''u'' ''c'' ''r''
          exampleSource) =
     Inr \<lparr>UserId = ''dicebot'', ChannelId = ''c'', RootId = ''r'',
          Message = ''**bob** rolls *6 +3* = **7**''\<rparr>"
  by code_simp

subsection \<open>The order of the breakdown\<close>

text \<open>
  Claim C9. The results are produced in the order of the tokens of the query (the keyword
  \<open>sum\<close> left out), the slot of each token in \<open>formattedRollDetails\<close> is at the index
  of the token, and the lines of the breakdown are the lines of the results in that same
  order. The text of the post shows them so: after the total it is, when more than one die
  was rolled, the lines of the results in the order of their tokens, each after a line
  feed, a dash and a blank. The witness is the query \<open>5 D8 13D20\<close>: three results and
  three displayed lines, in that order.
\<close>

theorem breakdown_in_token_order:
  assumes "rollLoop rd 0 ts (initState ts) g = (Inr st, g')"
  shows "\<exists>rs. evalResults rd ts g = (Inr rs, g') \<and>
           map fst rs = filter (\<lambda>t. t \<noteq> ''sum'') ts \<and>
           formattedRollDetails st = slots ts rs \<and>
           filterEmptyString (formattedRollDetails st) = map detailLine rs \<and>
           postText text st =
             text @ ''**'' @ fmtD (sint (sum_total st)) @ ''**'' @
               (if 1 < diceRolled rs then ''\<newline>- '' @ Join (map detailLine rs) ''\<newline>- '' else [])"
proof -
  from rollLoop_Inr_results [OF assms] obtain rs where e: "evalResults rd ts g = (Inr rs, g')"
    by blast
  from rollLoop_init [OF e] assms have
    c: "singleResultCount st = int (diceRolled rs)" and d: "formattedRollDetails st = slots ts rs"
    by auto
  from d filterEmptyString_slots [OF e] have
    f: "filterEmptyString (formattedRollDetails st) = map detailLine rs" by simp
  from c f have p: "postText text st =
             text @ ''**'' @ fmtD (sint (sum_total st)) @ ''**'' @
               (if 1 < diceRolled rs then ''\<newline>- '' @ Join (map detailLine rs) ''\<newline>- '' else [])"
    by (simp add: postText_def Let_def)
  from e evalResults_tokens [OF e] d f p show ?thesis by blast
qed

theorem breakdown_in_token_order_witness:
  "fst (rollLoop rollDice 0 (Fields ''5 D8 13D20'') (initState (Fields ''5 D8 13D20''))
          exampleSource) =
     Inr \<lparr>sum_total = 150, singleResultCount = 15, numericDiceCount = 3,
          formattedRollDetails =
            [''5: 4'', ''D8: 6'', ''13D20: 8 10 12 14 16 18 20 2 4 6 8 10 12'']\<rparr> \<and>
   (map fst
     [(''5'', \<lparr>rollType = numeric, results = [4 :: goint], sumModifier = 0 :: goint\<rparr>),
      (''D8'', \<lparr>rollType = numeric, results = [6], sumModifier = 0\<rparr>),
      (''13D20'', \<lparr>rollType = numeric,
          results = [8, 10, 12, 14, 16, 18, 20, 2, 4, 6, 8, 10, 12], sumModifier = 0\<rparr>)] =
     filter (\<lambda>t. t \<noteq> ''sum'') (Fields ''5 D8 13D20'') \<and>
   filterEmptyString [''5: 4'', ''D8: 6'', ''13D20: 8 10 12 14 16 18 20 2 4 6 8 10 12''] =
   map detailLine
     [(''5'', \<lparr>rollType = numeric, results = [4], sumModifier = 0\<rparr>),
      (''D8'', \<lparr>rollType = numeric, results = [6], sumModifier = 0\<rparr>),
      (''13D20'', \<lparr>rollType = numeric,
          results = [8, 10, 12, 14, 16, 18, 20, 2, 4, 6, 8, 10, 12], sumModifier = 0\<rparr>)] \<and>
   postText ''total ''
     \<lparr>sum_total = 150, singleResultCount = 15, numericDiceCount = 3,
      formattedRollDetails =
        [''5: 4'', ''D8: 6'', ''13D20: 8 10 12 14 16 18 20 2 4 6 8 10 12'']\<rparr> =
     ''total **150**\<newline>- 5: 4\<newline>- D8: 6\<newline>- 13D20: 8 10 12 14 16 18 20 2 4 6 8 10 12'')"
proof -
  let ?ts = "Fields ''5 D8 13D20''"
  let ?st = "\<lparr>sum_total = 150 :: goint, singleResultCount = 15, numericDiceCount = 3,
          formattedRollDetails =
            [''5: 4'', ''D8: 6'', ''13D20: 8 10 12 14 16 18 20 2 4 6 8 10 12'']\<rparr>"
  let ?rs = "[(''5'', \<lparr>rollType = numeric, results = [4 :: goint], sumModifier = 0 :: goint\<rparr>),
      (''D8'', \<lparr>rollType = numeric, results = [6], sumModifier = 0\<rparr>),
      (''13D20'', \<lparr>rollType = numeric,
          results = [8, 10, 12, 14, 16, 18, 20, 2, 4, 6, 8, 10, 12], sumModifier = 0\<rparr>)]"
  have f: "fst (rollLoop rollDice 0 ?ts (initState ?ts) exampleSource) = Inr ?st"
    by code_simp
  then have h: "rollLoop rollDice 0 ?ts (initState ?ts) exampleSource =
      (Inr ?st, snd (rollLoop rollDice 0 ?ts (initState ?ts) exampleSource))"
    by (simp add: prod_eq_iff)
  have r: "fst (evalResults rollDice ?ts exampleSource) = Inr ?rs"
    by code_simp
  have v: "''total '' @ ''**'' @ fmtD (sint (sum_total ?st)) @ ''**'' @
               (if 1 < diceRolled ?rs then ''\<newline>- '' @ Join (map detailLine ?rs) ''\<newline>- '' else [])
           = ''total **150**\<newline>- 5: 4\<newline>- D8: 6\<newline>- 13D20: 8 10 12 14 16 18 20 2 4 6 8 10 12''"
    by code_simp
  from breakdown_in_token_order [OF h, of "''total ''"] obtain rs where
    e: "evalResults rollDice ?ts exampleSource =
          (Inr rs, snd (rollLoop rollDice 0 ?ts (initState ?ts) exampleSource))" and
    m: "map fst rs = filter (\<lambda>t. t \<noteq> ''sum'') ?ts" and
    fl: "filterEmptyString (formattedRollDetails ?st) = map detailLine rs" and
    p: "postText ''total '' ?st =
          ''total '' @ ''**'' @ fmtD (sint (sum_total ?st)) @ ''**'' @
               (if 1 < diceRolled rs then ''\<newline>- '' @ Join (map detailLine rs) ''\<newline>- '' else [])"
    by blast
  from e have "fst (evalResults rollDice ?ts exampleSource) = Inr rs"
    by (simp only: fst_conv)
  with r have "Inr rs = (Inr ?rs :: error + (string \<times> diceRolls) list)" by (simp only:)
  then have q: "rs = ?rs" by (simp only: sum.inject)
  have s: "formattedRollDetails ?st =
      [''5: 4'', ''D8: 6'', ''13D20: 8 10 12 14 16 18 20 2 4 6 8 10 12'']"
    by (simp only: loopState.simps)
  from m q have c1: "map fst ?rs = filter (\<lambda>t. t \<noteq> ''sum'') ?ts" by (simp only:)
  from fl q s have c2:
    "filterEmptyString [''5: 4'', ''D8: 6'', ''13D20: 8 10 12 14 16 18 20 2 4 6 8 10 12''] =
        map detailLine ?rs" by (simp only:)
  from p q have c3: "postText ''total '' ?st =
          ''total '' @ ''**'' @ fmtD (sint (sum_total ?st)) @ ''**'' @
               (if 1 < diceRolled ?rs then ''\<newline>- '' @ Join (map detailLine ?rs) ''\<newline>- '' else [])"
    by (simp only:)
  note c4 = trans [OF c3 v]
  show ?thesis by (rule conjI [OF f conjI [OF c1 conjI [OF c2 c4]]])
qed

subsection \<open>The keyword sum among roll requests\<close>

text \<open>
  Claim C10. When the tokens of a query other than the keyword \<open>sum\<close> are all accepted, the
  loop ends in a state with the same total and the same count of dice as for the query
  without the keywords, the lines left by \<open>filterEmptyString\<close> are exactly the lines of
  that query, none of them is empty, and the text of the post after the head line is the
  same. So a \<open>sum\<close> token adds 0 to the total and no line to the breakdown.
\<close>

theorem sum_tokens_contribute_nothing:
  assumes "evalResults rd (filter (\<lambda>t. t \<noteq> ''sum'') ts) g = (Inr rs, g')"
  shows "\<exists>st st'.
           rollLoop rd 0 ts (initState ts) g = (Inr st, g') \<and>
           rollLoop rd 0 (filter (\<lambda>t. t \<noteq> ''sum'') ts)
             (initState (filter (\<lambda>t. t \<noteq> ''sum'') ts)) g = (Inr st', g') \<and>
           sum_total st = sum_total st' \<and>
           singleResultCount st = singleResultCount st' \<and>
           filterEmptyString (formattedRollDetails st) = formattedRollDetails st' \<and>
           [] \<notin> set (filterEmptyString (formattedRollDetails st)) \<and>
           postText text st = postText text st'"
proof -
  let ?ts' = "filter (\<lambda>t. t \<noteq> ''sum'') ts"
  from assms have e: "evalResults rd ts g = (Inr rs, g')" by (simp add: evalResults_filter)
  have n: "''sum'' \<notin> set ?ts'" by simp
  note l = rollLoop_init [OF e] and l' = rollLoop_init [OF assms]
  have f: "filterEmptyString (slots ts rs) = map detailLine rs"
    by (rule filterEmptyString_slots [OF e])
  have f': "slots ?ts' rs = map detailLine rs"
    by (rule slots_no_sum [OF assms n])
  have ne: "[] \<notin> set (map detailLine rs)"
    using detailLine_nonempty by (metis (no_types) ex_map_conv)
  have ff: "filterEmptyString (map detailLine rs) = map detailLine rs"
    by (simp add: filterEmptyString_filter filter_id_conv detailLine_nonempty)
  let ?st = "\<lparr>sum_total = word_of_int (exactTotal rs) :: goint,
           singleResultCount = int (diceRolled rs),
           numericDiceCount = int (length (filter (\<lambda>(t, r). rollType r = numeric) rs)),
           formattedRollDetails = slots ts rs\<rparr>"
  let ?st' = "\<lparr>sum_total = word_of_int (exactTotal rs) :: goint,
           singleResultCount = int (diceRolled rs),
           numericDiceCount = int (length (filter (\<lambda>(t, r). rollType r = numeric) rs)),
           formattedRollDetails = slots ?ts' rs\<rparr>"
  have p: "postText text ?st = postText text ?st'"
    by (simp add: postText_def Let_def f f' ff)
  have q: "filterEmptyString (formattedRollDetails ?st) = formattedRollDetails ?st'"
    by (simp add: f f')
  have r: "[] \<notin> set (filterEmptyString (formattedRollDetails ?st))"
    using ne by (simp add: f del: set_map)
  from l l' p q r show ?thesis
    by (intro exI [of _ ?st] exI [of _ ?st']) simp
qed

theorem sum_tokens_contribute_nothing_witness:
  "fst (evalResults rollDice (filter (\<lambda>t. t \<noteq> ''sum'') [''sum'', ''2D6'', ''sum'', ''+1''])
          exampleSource) =
     Inr [(''2D6'', \<lparr>rollType = numeric, results = [4, 6], sumModifier = 0\<rparr>),
          (''+1'', \<lparr>rollType = modifier, results = [], sumModifier = 1\<rparr>)] \<and>
   fst (rollLoop rollDice 0 [''sum'', ''2D6'', ''sum'', ''+1'']
          (initState [''sum'', ''2D6'', ''sum'', ''+1'']) exampleSource) =
     Inr \<lparr>sum_total = 11, singleResultCount = 2, numericDiceCount = 1,
          formattedRollDetails = [[], ''2D6: 4 6'', [], ''+1'']\<rparr> \<and>
   fst (rollLoop rollDice 0 [''2D6'', ''+1''] (initState [''2D6'', ''+1'']) exampleSource) =
     Inr \<lparr>sum_total = 11, singleResultCount = 2, numericDiceCount = 1,
          formattedRollDetails = [''2D6: 4 6'', ''+1'']\<rparr> \<and>
   postText ''total ''
     \<lparr>sum_total = 11, singleResultCount = 2, numericDiceCount = 1,
      formattedRollDetails = [[], ''2D6: 4 6'', [], ''+1'']\<rparr> =
   postText ''total ''
     \<lparr>sum_total = 11, singleResultCount = 2, numericDiceCount = 1,
      formattedRollDetails = [''2D6: 4 6'', ''+1'']\<rparr>"
proof -
  let ?ts = "[''sum'', ''2D6'', ''sum'', ''+1'']"
  let ?ts' = "[''2D6'', ''+1'']"
  let ?rs = "[(''2D6'', \<lparr>rollType = numeric, results = [4, 6 :: goint], sumModifier = 0 :: goint\<rparr>),
          (''+1'', \<lparr>rollType = modifier, results = [], sumModifier = 1\<rparr>)]"
  let ?st = "\<lparr>sum_total = 11 :: goint, singleResultCount = 2, numericDiceCount = 1,
          formattedRollDetails = [[], ''2D6: 4 6'', [], ''+1'']\<rparr>"
  let ?st' = "\<lparr>sum_total = 11 :: goint, singleResultCount = 2, numericDiceCount = 1,
          formattedRollDetails = [''2D6: 4 6'', ''+1'']\<rparr>"
  have t: "filter (\<lambda>t. t \<noteq> ''sum'') ?ts = ?ts'" by simp
  have r: "fst (evalResults rollDice ?ts' exampleSource) = Inr ?rs"
    by code_simp
  then have h: "evalResults rollDice (filter (\<lambda>t. t \<noteq> ''sum'') ?ts) exampleSource =
      (Inr ?rs, snd (evalResults rollDice ?ts' exampleSource))"
    by (simp add: prod_eq_iff)
  have f: "fst (rollLoop rollDice 0 ?ts (initState ?ts) exampleSource) = Inr ?st"
    by code_simp
  have f': "fst (rollLoop rollDice 0 ?ts' (initState ?ts') exampleSource) = Inr ?st'"
    by code_simp
  from sum_tokens_contribute_nothing [OF h, of "''total ''"] f f'
  have "postText ''total '' ?st = postText ''total '' ?st'"
    by auto
  with r f f' t show ?thesis by simp
qed

subsection \<open>The text of the post\<close>

text \<open>
  Claim C6, as amended. On success the message of the post is one string: the head line
  with the display name and the query, then the total between two pairs of asterisks,
  then either nothing or the breakdown, which is a line feed, a dash and a blank followed
  by the lines of the results joined by the same three characters.
\<close>

theorem post_message_format:
  assumes "generateDicePost rd GetUser p query userID channelID rootID g = (Inr post, g')"
  shows "\<exists>user rs. GetUser userID = Inr user \<and>
           evalResults rd (Fields (effectiveQuery query)) g = (Inr rs, g') \<and>
           (Message post =
              headLine user (effectiveQuery query) @
                ''**'' @ fmtD (sint (word_of_int (exactTotal rs) :: goint)) @ ''**'' \<or>
            Message post =
              headLine user (effectiveQuery query) @
                ''**'' @ fmtD (sint (word_of_int (exactTotal rs) :: goint)) @ ''**'' @
                ''\<newline>- '' @ Join (map detailLine rs) ''\<newline>- '')"
proof -
  let ?ts = "Fields (effectiveQuery query)"
  from generateDicePost_Inr [OF assms] obtain user st where
    u: "GetUser userID = Inr user" and
    l: "rollLoop rd 0 ?ts (initState ?ts) g = (Inr st, g')" and
    m: "Message post = postText (headLine user (effectiveQuery query)) st"
    by blast
  from rollLoop_Inr_results [OF l] obtain rs where e: "evalResults rd ?ts g = (Inr rs, g')"
    by blast
  from rollLoop_init [OF e] l have
    s: "sum_total st = word_of_int (exactTotal rs)" and d: "formattedRollDetails st = slots ?ts rs"
    by auto
  from d filterEmptyString_slots [OF e] have
    f: "filterEmptyString (formattedRollDetails st) = map detailLine rs" by simp
  from m s f have
    "Message post =
              headLine user (effectiveQuery query) @
                ''**'' @ fmtD (sint (word_of_int (exactTotal rs) :: goint)) @ ''**'' \<or>
            Message post =
              headLine user (effectiveQuery query) @
                ''**'' @ fmtD (sint (word_of_int (exactTotal rs) :: goint)) @ ''**'' @
                ''\<newline>- '' @ Join (map detailLine rs) ''\<newline>- ''"
    by (simp add: postText_def Let_def)
  with u e show ?thesis by blast
qed

theorem post_message_format_witness:
  "generateDicePost rollDice exampleGetUser examplePlugin ''5D6 +3'' ''u'' ''c'' ''r''
       exampleSource =
     (Inr \<lparr>UserId = ''dicebot'', ChannelId = ''c'', RootId = ''r'',
           Message = ''**bob** rolls *5D6 +3* = **25**\<newline>- 5D6: 4 6 2 4 6\<newline>- +3''\<rparr>,
      snd (generateDicePost rollDice exampleGetUser examplePlugin ''5D6 +3'' ''u'' ''c'' ''r''
             exampleSource)) \<and>
   (\<exists>user rs. exampleGetUser ''u'' = Inr user \<and>
      evalResults rollDice (Fields (effectiveQuery ''5D6 +3'')) exampleSource =
        (Inr rs, snd (generateDicePost rollDice exampleGetUser examplePlugin ''5D6 +3'' ''u''
                        ''c'' ''r'' exampleSource)) \<and>
      (Message \<lparr>UserId = ''dicebot'', ChannelId = ''c'', RootId = ''r'',
           Message = ''**bob** rolls *5D6 +3* = **25**\<newline>- 5D6: 4 6 2 4 6\<newline>- +3''\<rparr> =
         headLine user (effectiveQuery ''5D6 +3'') @
           ''**'' @ fmtD (sint (word_of_int (exactTotal rs) :: goint)) @ ''**'' \<or>
       Message \<lparr>UserId = ''dicebot'', ChannelId = ''c'', RootId = ''r'',
           Message = ''**bob** rolls *5D6 +3* = **25**\<newline>- 5D6: 4 6 2 4 6\<newline>- +3''\<rparr> =
         headLine user (effectiveQuery ''5D6 +3'') @
           ''**'' @ fmtD (sint (word_of_int (exactTotal rs) :: goint)) @ ''**'' @
           ''\<newline>- '' @ Join (map detailLine rs) ''\<newline>- ''))"
proof -
  let ?post = "\<lparr>UserId = ''dicebot'', ChannelId = ''c'', RootId = ''r'',
          Message = ''**bob** rolls *5D6 +3* = **25**\<newline>- 5D6: 4 6 2 4 6\<newline>- +3''\<rparr>"
  let ?call = "generateDicePost rollDice exampleGetUser examplePlugin ''5D6 +3'' ''u'' ''c'' ''r''
          exampleSource"
  have f: "fst ?call = Inr ?post" by code_simp
  then have h: "?call = (Inr ?post, snd ?call)" by (simp add: prod_eq_iff)
  show ?thesis by (rule conjI [OF h post_message_format [OF h]])
qed

text \<open>
  The claim as stated has nothing before the total in bold. The message starts with the
  display name in bold and the query: for the query \<open>6\<close> its first five characters are
  not the total.
\<close>

theorem head_line_precedes_total_counterexample:
  "fst (generateDicePost rollDice exampleGetUser examplePlugin ''6'' ''u'' ''c'' ''r''
          exampleSource) =
     Inr \<lparr>UserId = ''dicebot'', ChannelId = ''c'', RootId = ''r'',
          Message = ''**bob** rolls *6* = **4**''\<rparr> \<and>
   take 5 ''**bob** rolls *6* = **4**'' \<noteq> ''**4**''"
  by code_simp

subsection \<open>Tokens the roll engine rejects\<close>

text \<open>
  Claim C2, as amended. Let \<open>t\<close> be a token of the query that is not the keyword \<open>sum\<close>
  and matches none of the grammars, and let every token before it be accepted. Then
  \<open>generateDicePost\<close> returns no post but the error built from the InvalidRequest error
  of \<open>t\<close>, whose text names \<open>t\<close>, followed by the hint at the help text. The random
  source it leaves is the one after the rolls of the tokens before \<open>t\<close>.
\<close>

theorem first_invalid_token_aborts:
  assumes u: "GetUser userID = Inr user"
    and f: "Fields (effectiveQuery query) = pre @ t # post"
    and e: "evalResults rollDice pre g = (Inr rs, g1)"
    and s: "t \<noteq> ''sum''"
    and n: "parseRequest t = None"
  shows "generateDicePost rollDice GetUser p query userID channelID rootID g =
     (Inl \<lparr>Where = ''Dice Roller Plugin'',
           Id = Error (InvalidRequest t) @ '' See `/roll help` for examples.'',
           DetailedError = Error (InvalidRequest t), StatusCode = 400\<rparr>, g1)"
proof -
  from evalResults_first_error [OF e s rollDice_invalid [OF n]] f have
    x: "evalResults rollDice (Fields (effectiveQuery query)) g = (Inl (InvalidRequest t), g1)"
    by simp
  from f have ne: "Fields (effectiveQuery query) \<noteq> []" by simp
  have q: "effectiveQuery query \<noteq> ''sum''"
  proof
    assume "effectiveQuery query = ''sum''"
    with f Fields_sum have "[''sum''] = pre @ t # post" by simp
    with s show False by (cases pre) simp_all
  qed
  from generateDicePost_error [where GetUser = GetUser and userID = userID, OF u ne q x]
  show ?thesis
    by (simp add: appError_def)
qed

theorem first_invalid_token_aborts_witness:
  "exampleGetUser ''u'' = Inr exampleUser \<and>
   Fields (effectiveQuery ''sum 2D6 abc 4 xyz'') = [''sum'', ''2D6''] @ ''abc'' # [''4'', ''xyz''] \<and>
   evalResults rollDice [''sum'', ''2D6''] exampleSource =
     (Inr [(''2D6'', \<lparr>rollType = numeric, results = [4, 6], sumModifier = 0\<rparr>)],
      snd (evalResults rollDice [''sum'', ''2D6''] exampleSource)) \<and>
   ''abc'' \<noteq> ''sum'' \<and> parseRequest ''abc'' = None \<and>
   generateDicePost rollDice exampleGetUser examplePlugin ''sum 2D6 abc 4 xyz'' ''u'' ''c'' ''r''
       exampleSource =
     (Inl \<lparr>Where = ''Dice Roller Plugin'',
           Id = Error (InvalidRequest ''abc'') @ '' See `/roll help` for examples.'',
           DetailedError = Error (InvalidRequest ''abc''), StatusCode = 400\<rparr>,
      snd (evalResults rollDice [''sum'', ''2D6''] exampleSource))"
proof -
  have u: "exampleGetUser ''u'' = Inr exampleUser" by (simp add: exampleGetUser_def)
  have f: "Fields (effectiveQuery ''sum 2D6 abc 4 xyz'') = [''sum'', ''2D6''] @ ''abc'' # [''4'', ''xyz'']"
    by code_simp
  have "fst (evalResults rollDice [''sum'', ''2D6''] exampleSource) =
      Inr [(''2D6'', \<lparr>rollType = numeric, results = [4, 6], sumModifier = 0\<rparr>)]"
    by code_simp
  then have e: "evalResults rollDice [''sum'', ''2D6''] exampleSource =
     (Inr [(''2D6'', \<lparr>rollType = numeric, results = [4, 6], sumModifier = 0\<rparr>)],
      snd (evalResults rollDice [''sum'', ''2D6''] exampleSource))"
    by (simp add: prod_eq_iff)
  have s: "''abc'' \<noteq> ''sum''" by simp
  have n: "parseRequest ''abc'' = None" by code_simp
  note c = first_invalid_token_aborts [where GetUser = exampleGetUser and userID = "''u''"
      and p = examplePlugin and channelID = "''c''" and rootID = "''r''", OF u f e s n]
  show ?thesis by (intro conjI) (rule u f e s n c)+
qed

text \<open>
  The claim as stated leaves the state unchanged. The only state is the random source, and
  the tokens before the rejected one have drawn from it: after the query \<open>2D6 abc\<close> has
  failed, the next raw value of the source is 7, and it was 3 before.
\<close>

theorem invalid_token_state_counterexample:
  "fst (generateDicePost rollDice exampleGetUser examplePlugin ''2D6 abc'' ''u'' ''c'' ''r''
          exampleSource) =
     Inl \<lparr>Where = ''Dice Roller Plugin'',
          Id = ''Invalid roll request: abc. See `/roll help` for examples.'',
          DetailedError = ''Invalid roll request: abc.'', StatusCode = 400\<rparr> \<and>
   snd (generateDicePost rollDice exampleGetUser examplePlugin ''2D6 abc'' ''u'' ''c'' ''r''
          exampleSource) 0 = 7 \<and>
   exampleSource 0 = 3"
  by code_simp

subsection \<open>The roll engine: tokens and rolls\<close>

text \<open>What the parser of the roll engine makes of a plain number and of a dice term, and
  what the rolls of a dice term are.\<close>

lemma isDigit_not_isSign: "isDigit c \<Longrightarrow> \<not> isSign c"
  by (auto simp: isDigit_def isSign_def)

lemma isSeparator_not_isSign: "isSeparator c \<Longrightarrow> \<not> isSign c"
  by (auto simp: isSeparator_def isSign_def)

lemma isSeparator_not_isDigit: "isSeparator c \<Longrightarrow> \<not> isDigit c"
  by (auto simp: isSeparator_def isDigit_def)

lemma isSign_not_isDigit: "isSign c \<Longrightarrow> \<not> isDigit c"
  by (auto simp: isDigit_def isSign_def)

lemma digits_prefix:
  assumes "cs = [] \<or> allDigits cs" and "\<not> isDigit x"
  shows "takeWhile isDigit (cs @ x # r) = cs" and "dropWhile isDigit (cs @ x # r) = x # r"
  using assms by (auto simp: allDigits_def list_all_iff takeWhile_append2 dropWhile_append2)

lemma digits_whole:
  assumes "allDigits ds"
  shows "takeWhile isDigit ds = ds" and "dropWhile isDigit ds = []"
  using assms by (auto simp: allDigits_def list_all_iff)

lemma head_not_sign:
  assumes "cs = [] \<or> allDigits cs" and "\<not> isSign x"
  shows "\<exists>c rest. cs @ x # r = c # rest \<and> \<not> isSign c"
proof (cases cs)
  case Nil
  with assms show ?thesis by simp
next
  case (Cons c cs')
  with assms have "isDigit c" by (simp add: allDigits_def)
  with Cons show ?thesis by (simp add: isDigit_not_isSign)
qed


lemma parseRequest_dice_tail:
  assumes c: "cs = [] \<or> allDigits cs" and d: "isSeparator d" and ss: "allDigits ss"
    and tl: "tail = [] \<or> \<not> isDigit (hd tail)"
  shows "parseRequest (cs @ d # ss @ tail) =
     (case tail of
        [] \<Rightarrow> Some (DiceRequest (if cs = [] then 1 else nat (digitsValue cs))
                     (nat (digitsValue ss)) 0)
      | s # ms \<Rightarrow>
          if isSign s \<and> allDigits ms
          then Some (DiceRequest (if cs = [] then 1 else nat (digitsValue cs))
                       (nat (digitsValue ss)) (signedValue s ms))
          else None)"
proof -
  let ?token = "cs @ d # ss @ tail"
  from head_not_sign [OF c isSeparator_not_isSign [OF d]] obtain x rest where
    t: "?token = x # rest" and s: "\<not> isSign x" by blast
  note p = digits_prefix [OF c isSeparator_not_isDigit [OF d], of "ss @ tail"]
  have q: "takeWhile isDigit (ss @ tail) = ss \<and> dropWhile isDigit (ss @ tail) = tail"
  proof (cases tail)
    case Nil
    with digits_whole [OF ss] show ?thesis by simp
  next
    case (Cons y ys)
    with tl have "\<not> isDigit y" by simp
    from digits_prefix [OF disjI2 [OF ss] this, of ys] Cons show ?thesis by simp
  qed
  note q1 = conjunct1 [OF q] and q2 = conjunct2 [OF q]
  from ss have n: "ss \<noteq> []" by (simp add: allDigits_def)
  have "parseRequest ?token =
     (if isSign x then (if allDigits rest then Some (ModifierRequest (signedValue x rest)) else None)
      else
        (let cnt = takeWhile isDigit ?token;
             count = (if cnt = [] then 1 else nat (digitsValue cnt))
         in case dropWhile isDigit ?token of
              [] \<Rightarrow> Some (DiceRequest 1 (nat (digitsValue cnt)) 0)
            | d # afterD \<Rightarrow>
                if isSeparator d
                then
                  (let sd = takeWhile isDigit afterD;
                       sides = nat (digitsValue sd)
                   in if sd = [] then None
                      else case dropWhile isDigit afterD of
                             [] \<Rightarrow> Some (DiceRequest count sides 0)
                           | s # ms \<Rightarrow>
                               if isSign s \<and> allDigits ms
                               then Some (DiceRequest count sides (signedValue s ms))
                               else None)
                else None))"
    unfolding parseRequest_def by (simp only: t list.case)
  then show ?thesis
    by (simp only: p q1 q2 s d n Let_def if_False if_True list.case)
qed

lemma parseRequest_dice:
  assumes "cs = [] \<or> allDigits cs" and "isSeparator d" and "allDigits ss"
  shows "parseRequest (cs @ d # ss) =
     Some (DiceRequest (if cs = [] then 1 else nat (digitsValue cs)) (nat (digitsValue ss)) 0)"
  using parseRequest_dice_tail [OF assms, of "[]"] by simp

lemma parseRequest_dice_modifier:
  assumes "cs = [] \<or> allDigits cs" and "isSeparator d" and "allDigits ss"
    and "isSign s" and "allDigits ms"
  shows "parseRequest (cs @ d # ss @ s # ms) =
     Some (DiceRequest (if cs = [] then 1 else nat (digitsValue cs)) (nat (digitsValue ss))
             (signedValue s ms))"
  using parseRequest_dice_tail [OF assms(1-3), of "s # ms"] assms(4,5)
  by (simp add: isSign_not_isDigit)

lemma rollDie_range:
  assumes "1 \<le> sides"
  shows "1 \<le> fst (rollDie sides g) \<and> fst (rollDie sides g) \<le> int sides"
proof -
  from assms have "g 0 mod sides < sides" by simp
  with assms show ?thesis by (simp add: rollDie_def)
qed

lemma rollAll_Suc:
  "rollAll (Suc n) sides m g =
     ((fst (rollDie sides g) + m) # fst (rollAll n sides m (snd (rollDie sides g))),
      snd (rollAll n sides m (snd (rollDie sides g))))"
  by (simp add: case_prod_beta)

lemma rollAll_length: "length (fst (rollAll n sides m g)) = n"
  by (induction n arbitrary: g) (simp_all add: rollAll_Suc del: rollAll.simps(2))

lemma rollAll_range:
  "1 \<le> sides \<Longrightarrow> e \<in> set (fst (rollAll n sides m g)) \<Longrightarrow> 1 + m \<le> e \<and> e \<le> int sides + m"
proof (induction n arbitrary: g)
  case 0
  then show ?case by simp
next
  case (Suc n)
  from rollDie_range [OF Suc.prems(1), of g] have
    v: "1 \<le> fst (rollDie sides g) \<and> fst (rollDie sides g) \<le> int sides" .
  from Suc.prems(2) have
    "e = fst (rollDie sides g) + m \<or> e \<in> set (fst (rollAll n sides m (snd (rollDie sides g))))"
    by (simp add: rollAll_Suc del: rollAll.simps(2))
  then show ?case
  proof
    assume "e = fst (rollDie sides g) + m"
    with v show ?thesis by simp
  next
    assume "e \<in> set (fst (rollAll n sides m (snd (rollDie sides g))))"
    from Suc.IH [OF Suc.prems(1) this] show ?thesis .
  qed
qed

lemma rollAll_modifier:
  "rollAll n sides m g = (map (\<lambda>v. v + m) (fst (rollAll n sides 0 g)), snd (rollAll n sides 0 g))"
  by (induction n arbitrary: g) (simp_all add: rollAll_Suc del: rollAll.simps(2))

lemma rollToken_dice:
  assumes "parseRequest token = Some (DiceRequest count sides m)"
  shows "rollToken token g =
     (Inr \<lparr>kind = Numeric, rolls = fst (rollAll count sides m g), modifierValue = m\<rparr>,
      snd (rollAll count sides m g))"
  using assms by (simp add: rollToken_def case_prod_beta)




text \<open>
  Claim C8. A dice term with an attached modifier gives, from the same random source, the
  rolls of the dice term without the modifier with the signed modifier added to each of
  them, and leaves the same random source; so the modifier is applied once for each die.
  Whatever the random source, the token \<open>5D6+3\<close> gives exactly 5 rolls, each from 4 to 9.
\<close>

theorem modifier_applied_per_die:
  "((cs = [] \<or> allDigits cs) \<and> isSeparator d \<and> allDigits ss \<and> isSign s \<and> allDigits ms \<longrightarrow>
      (\<exists>res res' g'.
         rollToken (cs @ d # ss) g = (Inr res, g') \<and>
         rollToken (cs @ d # ss @ s # ms) g = (Inr res', g') \<and>
         kind res' = Numeric \<and> modifierValue res' = signedValue s ms \<and>
         rolls res' = map (\<lambda>v. v + signedValue s ms) (rolls res))) \<and>
   (\<exists>res g'. rollToken ''5D6+3'' g = (Inr res, g') \<and> kind res = Numeric \<and>
      length (rolls res) = 5 \<and> (\<forall>e\<in>set (rolls res). 4 \<le> e \<and> e \<le> 9))"
proof (intro conjI impI)
  assume a: "(cs = [] \<or> allDigits cs) \<and> isSeparator d \<and> allDigits ss \<and> isSign s \<and> allDigits ms"
  let ?count = "if cs = [] then 1 else nat (digitsValue cs)"
  let ?sides = "nat (digitsValue ss)"
  let ?m = "signedValue s ms"
  let ?res = "\<lparr>kind = Numeric, rolls = fst (rollAll ?count ?sides 0 g), modifierValue = 0\<rparr>"
  let ?res' = "\<lparr>kind = Numeric, rolls = fst (rollAll ?count ?sides ?m g), modifierValue = ?m\<rparr>"
  from a have p: "parseRequest (cs @ d # ss) = Some (DiceRequest ?count ?sides 0)"
    by (simp only: parseRequest_dice)
  from a have p': "parseRequest (cs @ d # ss @ s # ms) = Some (DiceRequest ?count ?sides ?m)"
    by (simp only: parseRequest_dice_modifier)
  note r = rollToken_dice [OF p, of g] and r' = rollToken_dice [OF p', of g]
  note e = rollAll_modifier [of ?count ?sides ?m g]
  from e have g: "snd (rollAll ?count ?sides ?m g) = snd (rollAll ?count ?sides 0 g)"
    by (simp add: prod_eq_iff)
  from e have m: "rolls ?res' = map (\<lambda>v. v + ?m) (rolls ?res)"
    by (simp add: prod_eq_iff)
  from r r' g m show "\<exists>res res' g'.
         rollToken (cs @ d # ss) g = (Inr res, g') \<and>
         rollToken (cs @ d # ss @ s # ms) g = (Inr res', g') \<and>
         kind res' = Numeric \<and> modifierValue res' = signedValue s ms \<and>
         rolls res' = map (\<lambda>v. v + signedValue s ms) (rolls res)"
    by (intro exI [of _ ?res] exI [of _ ?res'] exI [of _ "snd (rollAll ?count ?sides 0 g)"])
       simp
next
  have p: "parseRequest ''5D6+3'' = Some (DiceRequest 5 6 3)" by code_simp
  let ?res = "\<lparr>kind = Numeric, rolls = fst (rollAll 5 6 3 g), modifierValue = 3\<rparr>"
  note r = rollToken_dice [OF p, of g]
  have l: "length (rolls ?res) = 5" by (simp only: rollAll_length RollResult.simps)
  have b: "\<forall>e\<in>set (rolls ?res). 4 \<le> e \<and> e \<le> 9"
  proof
    fix e assume "e \<in> set (rolls ?res)"
    then have "e \<in> set (fst (rollAll 5 6 3 g))" by (simp only: RollResult.simps)
    from rollAll_range [OF _ this] show "4 \<le> e \<and> e \<le> 9" by simp
  qed
  from r l b show "\<exists>res g'. rollToken ''5D6+3'' g = (Inr res, g') \<and> kind res = Numeric \<and>
      length (rolls res) = 5 \<and> (\<forall>e\<in>set (rolls res). 4 \<le> e \<and> e \<le> 9)"
    by (intro exI [of _ ?res] exI [of _ "snd (rollAll 5 6 3 g)"]) simp
qed

theorem modifier_applied_per_die_witness:
  "((''5'' = [] \<or> allDigits ''5'') \<and> isSeparator (CHR ''D'') \<and> allDigits ''6'' \<and>
      isSign (CHR ''+'') \<and> allDigits ''3'') \<and>
   (\<exists>res res' g'.
      rollToken (''5'' @ CHR ''D'' # ''6'') exampleSource = (Inr res, g') \<and>
      rollToken (''5'' @ CHR ''D'' # ''6'' @ CHR ''+'' # ''3'') exampleSource = (Inr res', g') \<and>
      kind res' = Numeric \<and> modifierValue res' = signedValue (CHR ''+'') ''3'' \<and>
      rolls res' = map (\<lambda>v. v + signedValue (CHR ''+'') ''3'') (rolls res)) \<and>
   fst (rollToken ''5D6'' exampleSource) =
     Inr \<lparr>kind = Numeric, rolls = [4, 6, 2, 4, 6], modifierValue = 0\<rparr> \<and>
   fst (rollToken ''5D6+3'' exampleSource) =
     Inr \<lparr>kind = Numeric, rolls = [7, 9, 5, 7, 9], modifierValue = 3\<rparr> \<and>
   fst (rollToken ''5D6-3'' exampleSource) =
     Inr \<lparr>kind = Numeric, rolls = [1, 3, - 1, 1, 3], modifierValue = - 3\<rparr>"
proof -
  have h: "(''5'' = [] \<or> allDigits ''5'') \<and> isSeparator (CHR ''D'') \<and> allDigits ''6'' \<and>
      isSign (CHR ''+'') \<and> allDigits ''3''" by code_simp
  have v1: "fst (rollToken ''5D6'' exampleSource) =
     Inr \<lparr>kind = Numeric, rolls = [4, 6, 2, 4, 6], modifierValue = 0\<rparr>" by code_simp
  have v2: "fst (rollToken ''5D6+3'' exampleSource) =
     Inr \<lparr>kind = Numeric, rolls = [7, 9, 5, 7, 9], modifierValue = 3\<rparr>" by code_simp
  have v3: "fst (rollToken ''5D6-3'' exampleSource) =
     Inr \<lparr>kind = Numeric, rolls = [1, 3, - 1, 1, 3], modifierValue = - 3\<rparr>" by code_simp
  note c = modifier_applied_per_die [where cs = "''5''" and d = "CHR ''D''" and ss = "''6''"
      and s = "CHR ''+''" and ms = "''3''" and g = exampleSource]
  note c1 = c [THEN conjunct1, rule_format, OF h]
  show ?thesis by (intro conjI) (rule h [THEN conjunct1] h [THEN conjunct2, THEN conjunct1]
      h [THEN conjunct2, THEN conjunct2, THEN conjunct1]
      h [THEN conjunct2, THEN conjunct2, THEN conjunct2, THEN conjunct1]
      h [THEN conjunct2, THEN conjunct2, THEN conjunct2, THEN conjunct2] v1 v2 v3 c1)+
qed

end
